theory Spec2Isabelle
  imports Main "HOL-Library.Word"
begin

unbundle bit_operations_syntax

section \<open>The quad-to-single sketch: data\<close>

text \<open>
  The sketch runs on an ATmega328 (Arduino Uno). \<open>uint8_t\<close> and \<open>int8_t\<close> are
  8-bit words (an \<open>int8_t\<close> is read with \<open>sint\<close>); \<open>unsigned int\<close> has 16 bits on
  this target, so the arithmetic of the timer value is on 16-bit words.
\<close>

type_synonym uint8_t = "8 word"
type_synonym int8_t = "8 word"
type_synonym uint16_t = "16 word"

subsection \<open>Compile-time constants\<close>

definition DI_QUAD_A :: nat where "DI_QUAD_A = 2"
definition DI_QUAD_B :: nat where "DI_QUAD_B = 3"
definition PULSE_OUT :: nat where "PULSE_OUT = 4"

definition CPU_CLOCK_PER_US :: uint16_t where "CPU_CLOCK_PER_US = 16"
definition PULSE_LEN_US :: uint16_t where "PULSE_LEN_US = 50"

definition PULSE_LEN_CPU_CLOCKS :: uint16_t where
  "PULSE_LEN_CPU_CLOCKS = PULSE_LEN_US * CPU_CLOCK_PER_US"

definition PULSE_LEN_TIMER_VAL :: uint16_t where
  "PULSE_LEN_TIMER_VAL = 0xFFFF - PULSE_LEN_CPU_CLOCKS"

definition NUM_POSSIBLE_QUAD_STATE_CHANGES :: nat where
  "NUM_POSSIBLE_QUAD_STATE_CHANGES = 16"

definition MSK_PREV_STATE :: uint8_t where "MSK_PREV_STATE = 0x03"
definition MSK_NEW_STATE :: uint8_t where "MSK_NEW_STATE = 0x0C"
definition RIGHT_SHIFT_NEW_TO_PREV :: nat where "RIGHT_SHIFT_NEW_TO_PREV = 2"

text \<open>
  Bit numbers of the AVR register bits the sketch names (from the device header of the
  ATmega328, which is not part of the repository): all four are bit 0 of their register.
\<close>

definition TOV1 :: nat where "TOV1 = 0"
definition TOIE1 :: nat where "TOIE1 = 0"
definition TOIE0 :: nat where "TOIE0 = 0"
definition CS10 :: nat where "CS10 = 0"

definition BV :: "nat \<Rightarrow> uint8_t" where
  "BV n = push_bit n 1"

subsection \<open>The movement table\<close>

text \<open>
  \<open>QuadLookup\<close>, in the order of the source; the source's comment labels the nibble of
  entry \<open>n\<close> as \<open>Aprev Bprev Acurr Bcurr\<close>.
\<close>

definition QuadLookup :: "int8_t list" where
  "QuadLookup =
    [ 0, - 1, 1, 0,
      1, 0, 0, - 1,
      - 1, 0, 0, 1,
      0, 1, - 1, 0 ]"

text \<open>
  \<open>QuadLookup[i]\<close>: a read outside the array is undefined behaviour in C, here \<open>None\<close>.
\<close>

definition QuadLookup_at :: "uint8_t \<Rightarrow> int8_t option" where
  "QuadLookup_at i =
    (if unat i < length QuadLookup then Some (QuadLookup ! unat i) else None)"

subsection \<open>Machine state\<close>

text \<open>
  The four statics of the sketch and the registers its code touches. \<open>PORTD\<close> holds the
  output latch of the pulse pin (Arduino pin 4 is bit 4 of port D); \<open>PIND\<close>, the input
  register, is not state of the model: each read is an input of the handler.
\<close>

record mcu =
  QuadStatePrevious :: uint8_t
  QuadState :: uint8_t
  NewMovement :: int8_t
  PrevMovement :: int8_t
  PORTD :: uint8_t
  TIFR1 :: uint8_t
  TCNT1 :: uint16_t
  TIMSK1 :: uint8_t
  TIMSK0 :: uint8_t
  TCCR1A :: uint8_t
  TCCR1B :: uint8_t

text \<open>What a handler does to the world and to the statics, in program order.\<close>

datatype var = VQuadState | VNewMovement | VPrevMovement | VQuadStatePrevious

datatype event =
    PinToggle nat
  | WriteTIFR1 uint8_t
  | WriteTCNT1 uint16_t
  | WriteTIMSK1 uint8_t
  | Store var uint8_t

type_synonym exec = "mcu \<times> event list"

section \<open>Statements\<close>

text \<open>
  \<open>digitalToggleFast(pin)\<close> of the digitalWriteFast library: the output latch of the pin
  is inverted.
\<close>

definition digitalToggleFast :: "nat \<Rightarrow> exec \<Rightarrow> exec" where
  "digitalToggleFast pin x =
    (case x of (s, es) \<Rightarrow> (s\<lparr>PORTD := PORTD s XOR BV pin\<rparr>, es @ [PinToggle pin]))"

text \<open>
  \<open>TIFR1 |= _BV(TOV1)\<close>. The flag register is write-one-to-clear: the value written is
  the old content with the TOV1 bit set, and every bit written as one is cleared.
\<close>

definition clear_TOV1 :: "exec \<Rightarrow> exec" where
  "clear_TOV1 x =
    (case x of (s, es) \<Rightarrow>
      (let v = TIFR1 s OR BV TOV1
       in (s\<lparr>TIFR1 := TIFR1 s AND NOT v\<rparr>, es @ [WriteTIFR1 v])))"

text \<open>\<open>TCNT1 = v\<close>.\<close>

definition load_TCNT1 :: "uint16_t \<Rightarrow> exec \<Rightarrow> exec" where
  "load_TCNT1 v x =
    (case x of (s, es) \<Rightarrow> (s\<lparr>TCNT1 := v\<rparr>, es @ [WriteTCNT1 v]))"

text \<open>\<open>TIMSK1 |= _BV(TOIE1)\<close> and \<open>TIMSK1 &= ~_BV(TOIE1)\<close>.\<close>

definition enable_TOIE1 :: "exec \<Rightarrow> exec" where
  "enable_TOIE1 x =
    (case x of (s, es) \<Rightarrow>
      (let v = TIMSK1 s OR BV TOIE1
       in (s\<lparr>TIMSK1 := v\<rparr>, es @ [WriteTIMSK1 v])))"

definition disable_TOIE1 :: "exec \<Rightarrow> exec" where
  "disable_TOIE1 x =
    (case x of (s, es) \<Rightarrow>
      (let v = TIMSK1 s AND NOT (BV TOIE1)
       in (s\<lparr>TIMSK1 := v\<rparr>, es @ [WriteTIMSK1 v])))"

text \<open>Assignments to the four statics.\<close>

definition store_QuadState :: "uint8_t \<Rightarrow> exec \<Rightarrow> exec" where
  "store_QuadState v x =
    (case x of (s, es) \<Rightarrow> (s\<lparr>QuadState := v\<rparr>, es @ [Store VQuadState v]))"

definition store_NewMovement :: "int8_t \<Rightarrow> exec \<Rightarrow> exec" where
  "store_NewMovement v x =
    (case x of (s, es) \<Rightarrow> (s\<lparr>NewMovement := v\<rparr>, es @ [Store VNewMovement v]))"

definition store_PrevMovement :: "int8_t \<Rightarrow> exec \<Rightarrow> exec" where
  "store_PrevMovement v x =
    (case x of (s, es) \<Rightarrow> (s\<lparr>PrevMovement := v\<rparr>, es @ [Store VPrevMovement v]))"

definition store_QuadStatePrevious :: "uint8_t \<Rightarrow> exec \<Rightarrow> exec" where
  "store_QuadStatePrevious v x =
    (case x of (s, es) \<Rightarrow>
      (s\<lparr>QuadStatePrevious := v\<rparr>, es @ [Store VQuadStatePrevious v]))"

section \<open>The handlers\<close>

text \<open>
  \<open>QuadChange\<close>, the handler of both pin-change interrupts; \<open>pind\<close> is what the single
  read of \<open>QUAD_PORT\<close> returns. The result is the new state and the events of this
  invocation, or \<open>None\<close> if the table were read out of bounds.
\<close>

definition QuadChange :: "uint8_t \<Rightarrow> mcu \<Rightarrow> exec option" where
  "QuadChange pind s =
    (let x1 = store_QuadState ((pind AND MSK_NEW_STATE) OR QuadStatePrevious s) (s, [])
     in case QuadLookup_at (QuadState (fst x1)) of
          None \<Rightarrow> None
        | Some m \<Rightarrow>
            (let x2 = store_NewMovement m x1;
                 x3 = (if sint (NewMovement (fst x2)) = sint (PrevMovement (fst x2))
                       then enable_TOIE1
                              (load_TCNT1 PULSE_LEN_TIMER_VAL
                                (clear_TOV1
                                  (digitalToggleFast PULSE_OUT x2)))
                       else x2);
                 x4 = store_PrevMovement (NewMovement (fst x3)) x3;
                 x5 = store_QuadStatePrevious
                        (drop_bit RIGHT_SHIFT_NEW_TO_PREV (QuadState (fst x4))) x4
             in Some x5))"

text \<open>The handler of the timer 1 overflow interrupt.\<close>

definition TIMER1_OVF_vect :: "mcu \<Rightarrow> exec" where
  "TIMER1_OVF_vect s = disable_TOIE1 (digitalToggleFast PULSE_OUT (s, []))"

text \<open>
  The static initialisers, and the part of the sketch's initialisation function that
  writes state of the model (serial port, pin modes and the registration of the handler
  are left to the environment). \<open>pind\<close> is the port read of that function.
\<close>

definition static_init :: "mcu \<Rightarrow> mcu" where
  "static_init s =
    s\<lparr>QuadStatePrevious := 0, QuadState := 0, NewMovement := 0, PrevMovement := 0\<rparr>"

definition sketch_setup :: "uint8_t \<Rightarrow> mcu \<Rightarrow> mcu" where
  "sketch_setup pind s =
    (let s1 = s\<lparr>QuadState := pind AND MSK_NEW_STATE\<rparr>;
         s2 = s1\<lparr>QuadStatePrevious := drop_bit RIGHT_SHIFT_NEW_TO_PREV (QuadState s1)\<rparr>;
         s3 = s2\<lparr>TIMSK0 := TIMSK0 s2 AND NOT (BV TOIE0)\<rparr>;
         s4 = s3\<lparr>TCCR1A := 0\<rparr>;
         s5 = s4\<lparr>TCCR1B := 0\<rparr>
     in s5\<lparr>TCCR1B := BV CS10\<rparr>)"

definition boot :: "mcu \<Rightarrow> uint8_t \<Rightarrow> mcu" where
  "boot hw pind = sketch_setup pind (static_init hw)"

section \<open>Runs\<close>

text \<open>
  After initialisation the processor only runs interrupt handlers (the main loop of the
  sketch is empty). On the AVR a handler runs with interrupts disabled, so each one runs
  to completion before the next starts. A run is the list of interrupts taken, in the
  order taken, each pin-change interrupt with the port value its handler reads; any
  interleaving of the two kinds is a run.
\<close>

datatype irq = INT_QUAD uint8_t | TIMER1_OVF

fun handle :: "irq \<Rightarrow> mcu \<Rightarrow> exec option" where
  "handle (INT_QUAD pind) s = QuadChange pind s"
| "handle TIMER1_OVF s = Some (TIMER1_OVF_vect s)"

fun run :: "mcu \<Rightarrow> irq list \<Rightarrow> (mcu \<times> event list list) option" where
  "run s [] = Some (s, [])"
| "run s (i # is) =
    (case handle i s of
       None \<Rightarrow> None
     | Some (s', es) \<Rightarrow>
         (case run s' is of
            None \<Rightarrow> None
          | Some (s'', ess) \<Rightarrow> Some (s'', es # ess)))"

section \<open>What a run shows\<close>

text \<open>The machine at power-on, before the static initialisers: all registers zero.\<close>

definition power_on :: mcu where
  "power_on =
    \<lparr>QuadStatePrevious = 0, QuadState = 0, NewMovement = 0, PrevMovement = 0,
     PORTD = 0, TIFR1 = 0, TCNT1 = 0, TIMSK1 = 0, TIMSK0 = 0, TCCR1A = 0, TCCR1B = 0\<rparr>"

text \<open>
  The phase pair of a port read as a 2-bit value: the two pin bits moved down, the
  expression the sketch stores in \<open>QuadStatePrevious\<close> during initialisation.
\<close>

definition phase_pair :: "uint8_t \<Rightarrow> uint8_t" where
  "phase_pair pind = drop_bit RIGHT_SHIFT_NEW_TO_PREV (pind AND MSK_NEW_STATE)"

text \<open>
  The table indices the handler computes along a sequence of port reads, from the value
  of \<open>QuadStatePrevious\<close> before the first of them.
\<close>

fun transition_codes :: "uint8_t \<Rightarrow> uint8_t list \<Rightarrow> uint8_t list" where
  "transition_codes q [] = []"
| "transition_codes q (p # ps) =
    ((p AND MSK_NEW_STATE) OR q)
      # transition_codes (drop_bit RIGHT_SHIFT_NEW_TO_PREV ((p AND MSK_NEW_STATE) OR q)) ps"

text \<open>The port reads of the pin-change interrupts of a run, and their event lists.\<close>

fun quad_reads :: "irq list \<Rightarrow> uint8_t list" where
  "quad_reads [] = []"
| "quad_reads (INT_QUAD p # is) = p # quad_reads is"
| "quad_reads (TIMER1_OVF # is) = quad_reads is"

fun quad_events :: "irq list \<Rightarrow> event list list \<Rightarrow> event list list" where
  "quad_events (INT_QUAD p # is) (es # ess) = es # quad_events is ess"
| "quad_events (TIMER1_OVF # is) (es # ess) = quad_events is ess"
| "quad_events _ _ = []"

text \<open>An invocation emits a pulse when it toggles the pulse pin.\<close>

definition pulse_emitted :: "event list \<Rightarrow> bool" where
  "pulse_emitted es = (PinToggle PULSE_OUT \<in> set es)"

text \<open>
  An invocation arms the one-shot when it loads the counter with the pulse length value
  and writes the interrupt mask with the overflow interrupt enabled.
\<close>

fun enables_TOIE1 :: "event \<Rightarrow> bool" where
  "enables_TOIE1 (WriteTIMSK1 v) = bit v TOIE1"
| "enables_TOIE1 _ = False"

definition timer_armed :: "event list \<Rightarrow> bool" where
  "timer_armed es =
    (WriteTCNT1 PULSE_LEN_TIMER_VAL \<in> set es \<and> filter enables_TOIE1 es \<noteq> [])"

text \<open>
  The validation rule in the words of the specification: along a sequence of movements,
  a pulse on a transition if and only if its movement equals the one before it, as signed
  values; \<open>prev\<close> is the movement recorded before the first transition.
\<close>

fun spec_pulses :: "int8_t \<Rightarrow> int8_t list \<Rightarrow> bool list" where
  "spec_pulses prev [] = []"
| "spec_pulses prev (m # ms) = (sint m = sint prev) # spec_pulses m ms"

text \<open>The events and the register effects of the arming branch, in program order.\<close>

definition arm_events :: "mcu \<Rightarrow> event list" where
  "arm_events s =
    [PinToggle PULSE_OUT, WriteTIFR1 (TIFR1 s OR BV TOV1),
     WriteTCNT1 PULSE_LEN_TIMER_VAL, WriteTIMSK1 (TIMSK1 s OR BV TOIE1)]"

definition arm_state :: "mcu \<Rightarrow> mcu" where
  "arm_state s =
    s\<lparr>PORTD := PORTD s XOR BV PULSE_OUT,
      TIFR1 := TIFR1 s AND NOT (TIFR1 s OR BV TOV1),
      TCNT1 := PULSE_LEN_TIMER_VAL,
      TIMSK1 := TIMSK1 s OR BV TOIE1\<rparr>"

text \<open>The table indices an event list stores, and the stores to one static.\<close>

fun table_indices :: "event list \<Rightarrow> uint8_t list" where
  "table_indices [] = []"
| "table_indices (Store VQuadState c # es) = c # table_indices es"
| "table_indices (_ # es) = table_indices es"

fun stores_to :: "var \<Rightarrow> event list \<Rightarrow> uint8_t list" where
  "stores_to x [] = []"
| "stores_to x (Store y v # es) = (if x = y then v # stores_to x es else stores_to x es)"
| "stores_to x (_ # es) = stores_to x es"

text \<open>The events on the hardware: everything but the stores to statics.\<close>

fun is_hw :: "event \<Rightarrow> bool" where
  "is_hw (Store x v) = False"
| "is_hw _ = True"

definition hw_events :: "event list \<Rightarrow> event list" where
  "hw_events es = filter is_hw es"

text \<open>
  A run step by step: for each interrupt taken, the interrupt, the state before its
  handler, the events of the handler and the state after it.
\<close>

type_synonym step = "irq \<times> mcu \<times> event list \<times> mcu"

fun steps :: "mcu \<Rightarrow> irq list \<Rightarrow> step list option" where
  "steps s [] = Some []"
| "steps s (i # is) =
    (case handle i s of
       None \<Rightarrow> None
     | Some (s', es) \<Rightarrow>
         (case steps s' is of
            None \<Rightarrow> None
          | Some xs \<Rightarrow> Some ((i, s, es, s') # xs)))"

fun step_events :: "step \<Rightarrow> event list" where
  "step_events (i, s, es, s') = es"

fun is_quad_step :: "step \<Rightarrow> bool" where
  "is_quad_step (INT_QUAD p, s, es, s') = True"
| "is_quad_step (TIMER1_OVF, s, es, s') = False"

definition quad_steps :: "step list \<Rightarrow> step list" where
  "quad_steps xs = filter is_quad_step xs"

text \<open>
  A step fires a pulse when its hardware events are the four of the arming branch and the
  registers show them: the latch of the pulse pin is inverted, the overflow flag is clear,
  the counter holds the pulse length value and the overflow interrupt is enabled, the
  other mask bits as they were.
\<close>

fun pulse_fired :: "step \<Rightarrow> bool" where
  "pulse_fired (i, s, es, s') =
    (hw_events es = arm_events s
     \<and> PORTD s' = PORTD s XOR BV PULSE_OUT
     \<and> bit (PORTD s') PULSE_OUT = (\<not> bit (PORTD s) PULSE_OUT)
     \<and> \<not> bit (TIFR1 s') TOV1
     \<and> TCNT1 s' = PULSE_LEN_TIMER_VAL
     \<and> TIMSK1 s' = TIMSK1 s OR BV TOIE1
     \<and> bit (TIMSK1 s') TOIE1)"

text \<open>
  A step leaves the hardware alone when it has no hardware event and the pin latch, the
  flag register, the counter and the interrupt mask are what they were.
\<close>

fun hardware_untouched :: "step \<Rightarrow> bool" where
  "hardware_untouched (i, s, es, s') =
    (hw_events es = []
     \<and> PORTD s' = PORTD s
     \<and> TIFR1 s' = TIFR1 s
     \<and> TCNT1 s' = TCNT1 s
     \<and> TIMSK1 s' = TIMSK1 s)"

section \<open>The specification's words\<close>

text \<open>
  The transition code as the specification forms it: the previous phase pair in the
  high two bits, the current one in the low two.
\<close>

definition spec_TransitionCode :: "uint8_t \<Rightarrow> uint8_t \<Rightarrow> uint8_t" where
  "spec_TransitionCode prev cur = push_bit 2 prev OR cur"

text \<open>
  The order of the arming side effects as the specification lists it: flag cleared,
  counter loaded, pin toggled, interrupt enabled.
\<close>

definition spec_arming_order :: "mcu \<Rightarrow> event list" where
  "spec_arming_order s =
    [WriteTIFR1 (TIFR1 s OR BV TOV1), WriteTCNT1 PULSE_LEN_TIMER_VAL,
     PinToggle PULSE_OUT, WriteTIMSK1 (TIMSK1 s OR BV TOIE1)]"

text \<open>
  Timer 1 counts up once per CPU clock (prescaler 1) and overflows on the tick that takes
  it from \<open>MAX_COUNT\<close> to zero: a counter loaded with \<open>v\<close> overflows after
  \<open>MAX_COUNT + 1 - v\<close> ticks. Times are in CPU clocks, so the tick time is 1 and the pulse
  width is \<open>PULSE_LEN_CPU_CLOCKS\<close>.
\<close>

definition MAX_COUNT :: nat where "MAX_COUNT = 0xFFFF"

definition ticks_to_overflow :: "uint16_t \<Rightarrow> nat" where
  "ticks_to_overflow v = MAX_COUNT + 1 - unat v"

text \<open>
  The quadrature cycle \<open>00 \<rightarrow> 10 \<rightarrow> 11 \<rightarrow> 01 \<rightarrow> 00\<close> on 2-bit phase pairs, the rotation of
  a 4-bit code (in the table's labelling, previous pair high) that moves both of its pairs
  one step along the cycle, and the codes in which exactly one bit of the pair changes.
\<close>

definition gray_next :: "uint8_t \<Rightarrow> uint8_t" where
  "gray_next v = (if v = 0 then 2 else if v = 2 then 3 else if v = 3 then 1 else 0)"

definition rotate_code :: "uint8_t \<Rightarrow> uint8_t" where
  "rotate_code c =
    push_bit 2 (gray_next (drop_bit 2 c)) OR gray_next (c AND MSK_PREV_STATE)"

definition single_bit_change :: "uint8_t \<Rightarrow> bool" where
  "single_bit_change c =
    (let d = drop_bit 2 c XOR (c AND MSK_PREV_STATE) in d = 1 \<or> d = 2)"

text \<open>A 4-bit code read backwards: bit 3 exchanged with bit 0 and bit 2 with bit 1.\<close>

definition reverse_nibble :: "uint8_t \<Rightarrow> uint8_t" where
  "reverse_nibble c =
    push_bit 3 (c AND 1) OR push_bit 1 (c AND 2) OR drop_bit 1 (c AND 4) OR drop_bit 3 (c AND 8)"

section \<open>Word facts\<close>

lemma and_0C_uint: "uint ((p :: 8 word) AND 0x0C) \<le> 12"
  using word_and_le1 [of p "0x0C"] by (simp add: word_le_def)

lemma idx_lt16:
  assumes "(q :: 8 word) \<le> 3"
  shows "unat ((p AND 0x0C) OR q) < 16"
proof -
  have a: "uint (p AND 0x0C) < 2 ^ 4"
    using and_0C_uint [of p] by simp
  have b: "uint q < 2 ^ 4"
    using assms by (simp add: word_le_def)
  have "uint (p AND 0x0C) OR uint q < 2 ^ 4"
    by (rule OR_upper [OF _ a b]) simp
  then have "uint ((p AND 0x0C) OR q) < 16"
    by (simp add: uint_or)
  moreover have "unat ((p AND 0x0C) OR q) = nat (uint ((p AND 0x0C) OR q))"
    by (rule unat_eq_nat_uint)
  ultimately show ?thesis
    by linarith
qed

lemma unat_drop2: "unat (drop_bit 2 (w :: 8 word)) = unat w div 4"
proof -
  have "unat (drop_bit 2 w) = drop_bit 2 (unat w)"
    by (rule unat_drop_bit_eq)
  also have "\<dots> = unat w div 2 ^ 2"
    by (rule drop_bit_eq_div)
  finally show ?thesis by simp
qed

lemma drop_q:
  assumes "(q :: 8 word) \<le> 3"
  shows "drop_bit 2 q = 0"
proof -
  from assms have "unat q \<le> 3"
    by (simp add: word_le_nat_alt)
  then have "unat (drop_bit 2 q) = 0"
    by (simp add: unat_drop2)
  then show ?thesis
    by (simp add: unat_eq_zero)
qed

lemma drop_le3: "drop_bit 2 ((p :: 8 word) AND 0x0C) \<le> 3"
  by (simp add: word_and_le1)

lemma drop_idx:
  "(q :: 8 word) \<le> 3 \<Longrightarrow> drop_bit 2 ((p AND 0x0C) OR q) = drop_bit 2 (p AND 0x0C)"
  by (simp add: drop_q)

lemma push_drop_and_0C: "push_bit 2 (drop_bit 2 ((p :: 8 word) AND 0x0C)) = p AND 0x0C"
proof -
  have "take_bit 2 (p AND 0x0C) = 0"
    by simp
  then show ?thesis
    using bits_ident [of 2 "p AND 0x0C"] by simp
qed

lemma sint_eq: "sint (a :: 8 word) = sint b \<longleftrightarrow> a = b"
  by (auto intro: signed_word_eqI)

lemma code_cases:
  assumes "unat (c :: 8 word) < 16"
  shows "c \<in> {0, 1, 2, 3, 4, 5, 6, 7, 8, 9, 10, 11, 12, 13, 14, 15}"
proof -
  from assms have "unat c = 0 \<or> unat c = 1 \<or> unat c = 2 \<or> unat c = 3 \<or> unat c = 4
      \<or> unat c = 5 \<or> unat c = 6 \<or> unat c = 7 \<or> unat c = 8 \<or> unat c = 9 \<or> unat c = 10
      \<or> unat c = 11 \<or> unat c = 12 \<or> unat c = 13 \<or> unat c = 14 \<or> unat c = 15"
    by arith
  then show ?thesis
    by (simp add: word_unat_eq_iff)
qed

section \<open>The table, entry by entry\<close>

lemma QuadLookup_at_Some:
  "unat c < 16 \<Longrightarrow> QuadLookup_at c = Some (QuadLookup ! unat c)"
  by (simp add: QuadLookup_at_def QuadLookup_def)

lemma QuadLookup_at_simps:
  "QuadLookup_at 0 = Some 0" "QuadLookup_at 1 = Some (- 1)"
  "QuadLookup_at 2 = Some 1" "QuadLookup_at 3 = Some 0"
  "QuadLookup_at 4 = Some 1" "QuadLookup_at 5 = Some 0"
  "QuadLookup_at 6 = Some 0" "QuadLookup_at 7 = Some (- 1)"
  "QuadLookup_at 8 = Some (- 1)" "QuadLookup_at 9 = Some 0"
  "QuadLookup_at 10 = Some 0" "QuadLookup_at 11 = Some 1"
  "QuadLookup_at 12 = Some 0" "QuadLookup_at 13 = Some 1"
  "QuadLookup_at 14 = Some (- 1)" "QuadLookup_at 15 = Some 0"
  by (simp_all add: QuadLookup_at_def QuadLookup_def)

section \<open>One invocation of the handlers\<close>

lemmas stmt_defs =
  store_QuadState_def store_NewMovement_def store_PrevMovement_def
  store_QuadStatePrevious_def enable_TOIE1_def load_TCNT1_def clear_TOV1_def
  digitalToggleFast_def

text \<open>
  The handler of the pin-change interrupts written out, for a state whose recorded phase
  pair has two bits.
\<close>

lemma QuadChange_step:
  assumes "QuadStatePrevious s \<le> 3"
  shows "QuadChange p s =
    (let c = (p AND MSK_NEW_STATE) OR QuadStatePrevious s;
         m = QuadLookup ! unat c;
         s1 = s\<lparr>QuadState := c, NewMovement := m\<rparr>;
         s2 = (if m = PrevMovement s then arm_state s1 else s1)
     in Some (s2\<lparr>PrevMovement := m, QuadStatePrevious := drop_bit 2 c\<rparr>,
          [Store VQuadState c, Store VNewMovement m]
          @ (if m = PrevMovement s then arm_events s else [])
          @ [Store VPrevMovement m, Store VQuadStatePrevious (drop_bit 2 c)]))"
proof -
  have "unat ((p AND 0x0C) OR QuadStatePrevious s) < 16"
    using assms by (rule idx_lt16)
  then have look: "QuadLookup_at ((p AND MSK_NEW_STATE) OR QuadStatePrevious s)
      = Some (QuadLookup ! unat ((p AND MSK_NEW_STATE) OR QuadStatePrevious s))"
    by (simp add: QuadLookup_at_Some MSK_NEW_STATE_def)
  show ?thesis
    by (simp add: QuadChange_def Let_def look stmt_defs sint_eq arm_events_def arm_state_def
        RIGHT_SHIFT_NEW_TO_PREV_def)
qed

lemma QuadChange_summary:
  assumes "QuadStatePrevious s \<le> 3"
  shows "\<exists>s' es m. QuadChange p s = Some (s', es)
     \<and> QuadLookup_at ((p AND MSK_NEW_STATE) OR QuadStatePrevious s) = Some m
     \<and> (pulse_emitted es \<longleftrightarrow> sint m = sint (PrevMovement s))
     \<and> (timer_armed es \<longleftrightarrow> sint m = sint (PrevMovement s))
     \<and> table_indices es = [(p AND MSK_NEW_STATE) OR QuadStatePrevious s]
     \<and> PrevMovement s' = m
     \<and> QuadStatePrevious s'
         = drop_bit RIGHT_SHIFT_NEW_TO_PREV ((p AND MSK_NEW_STATE) OR QuadStatePrevious s)
     \<and> QuadStatePrevious s' \<le> 3"
proof -
  let ?c = "(p AND MSK_NEW_STATE) OR QuadStatePrevious s"
  have lt: "unat ?c < 16"
    using idx_lt16 [OF assms, of p] by (simp add: MSK_NEW_STATE_def)
  have le: "drop_bit 2 ?c \<le> 3"
    using drop_idx [OF assms, of p] drop_le3 [of p] by (simp add: MSK_NEW_STATE_def)
  show ?thesis
    unfolding QuadChange_step [OF assms]
    using le
    by (simp add: Let_def QuadLookup_at_Some [OF lt] pulse_emitted_def timer_armed_def
        arm_events_def sint_eq RIGHT_SHIFT_NEW_TO_PREV_def TOIE1_def BV_def bit_or_iff)
qed

text \<open>
  The same invocation read off the registers: a pulse is fired exactly when the movement
  repeats, and otherwise the hardware is left alone.
\<close>

lemma QuadChange_effect:
  assumes "QuadStatePrevious s \<le> 3"
  shows "\<exists>s' es m. QuadChange p s = Some (s', es)
     \<and> QuadLookup_at ((p AND MSK_NEW_STATE) OR QuadStatePrevious s) = Some m
     \<and> pulse_fired (i, s, es, s') = (sint m = sint (PrevMovement s))
     \<and> hardware_untouched (i, s, es, s') = (sint m \<noteq> sint (PrevMovement s))
     \<and> PrevMovement s' = m
     \<and> QuadStatePrevious s'
         = drop_bit RIGHT_SHIFT_NEW_TO_PREV ((p AND MSK_NEW_STATE) OR QuadStatePrevious s)
     \<and> QuadStatePrevious s' \<le> 3"
proof -
  let ?c = "(p AND MSK_NEW_STATE) OR QuadStatePrevious s"
  have lt: "unat ?c < 16"
    using idx_lt16 [OF assms, of p] by (simp add: MSK_NEW_STATE_def)
  have le: "drop_bit 2 ?c \<le> 3"
    using drop_idx [OF assms, of p] drop_le3 [of p] by (simp add: MSK_NEW_STATE_def)
  show ?thesis
  proof (cases "QuadLookup ! unat ?c = PrevMovement s")
    case True
    then show ?thesis
      unfolding QuadChange_step [OF assms]
      using le
      by (simp add: Let_def QuadLookup_at_Some [OF lt] hw_events_def arm_events_def
          arm_state_def sint_eq RIGHT_SHIFT_NEW_TO_PREV_def TOIE1_def TOV1_def BV_def
          PULSE_OUT_def bit_or_iff bit_and_iff bit_not_iff bit_xor_iff bit_push_bit_iff)
  next
    case False
    then show ?thesis
      unfolding QuadChange_step [OF assms]
      using le
      by (simp add: Let_def QuadLookup_at_Some [OF lt] hw_events_def arm_events_def
          sint_eq RIGHT_SHIFT_NEW_TO_PREV_def)
  qed
qed

lemma TIMER1_OVF_vect_eq:
  "TIMER1_OVF_vect s =
    (s\<lparr>PORTD := PORTD s XOR BV PULSE_OUT, TIMSK1 := TIMSK1 s AND NOT (BV TOIE1)\<rparr>,
     [PinToggle PULSE_OUT, WriteTIMSK1 (TIMSK1 s AND NOT (BV TOIE1))])"
  by (simp add: TIMER1_OVF_vect_def disable_TOIE1_def digitalToggleFast_def Let_def)

lemma boot_fields:
  "QuadStatePrevious (boot hw p0) = phase_pair p0"
  "PrevMovement (boot hw p0) = 0"
  "TCCR1B (boot hw p0) = BV CS10"
  by (simp_all add: boot_def sketch_setup_def static_init_def phase_pair_def Let_def)

lemma boot_registers:
  "PORTD (boot hw p0) = PORTD hw" "TIFR1 (boot hw p0) = TIFR1 hw"
  "TCNT1 (boot hw p0) = TCNT1 hw" "TIMSK1 (boot hw p0) = TIMSK1 hw"
  by (simp_all add: boot_def sketch_setup_def static_init_def Let_def)

lemma phase_pair_le3: "phase_pair p \<le> 3"
  using drop_le3 [of p]
  by (simp add: phase_pair_def MSK_NEW_STATE_def RIGHT_SHIFT_NEW_TO_PREV_def)

section \<open>Runs\<close>

lemma transition_codes_lt16:
  "q \<le> 3 \<Longrightarrow> list_all (\<lambda>c. unat c < 16) (transition_codes q ps)"
proof (induction ps arbitrary: q)
  case Nil
  then show ?case by simp
next
  case (Cons p ps)
  have "drop_bit 2 ((p AND 0x0C) OR q) \<le> 3"
    using drop_idx [OF Cons.prems, of p] drop_le3 [of p] by simp
  then have "list_all (\<lambda>c. unat c < 16)
      (transition_codes (drop_bit 2 ((p AND 0x0C) OR q)) ps)"
    by (rule Cons.IH)
  then show ?case
    using idx_lt16 [OF Cons.prems, of p]
    by (simp add: MSK_NEW_STATE_def RIGHT_SHIFT_NEW_TO_PREV_def)
qed

text \<open>
  A run from a state with a 2-bit recorded phase pair never reads outside the table; the
  pin-change invocations emit pulses and arm the timer as \<open>spec_pulses\<close> says, and the
  indices they compute are \<open>transition_codes\<close>.
\<close>

lemma run_summary:
  assumes "QuadStatePrevious s \<le> 3"
  shows "\<exists>s' ess movs. run s irqs = Some (s', ess)
     \<and> map QuadLookup_at (transition_codes (QuadStatePrevious s) (quad_reads irqs))
         = map Some movs
     \<and> map pulse_emitted (quad_events irqs ess) = spec_pulses (PrevMovement s) movs
     \<and> map timer_armed (quad_events irqs ess) = spec_pulses (PrevMovement s) movs
     \<and> concat (map table_indices ess)
         = transition_codes (QuadStatePrevious s) (quad_reads irqs)
     \<and> QuadStatePrevious s' \<le> 3"
  using assms
proof (induction irqs arbitrary: s)
  case Nil
  then show ?case by simp
next
  case (Cons i irqs)
  show ?case
  proof (cases i)
    case (INT_QUAD p)
    let ?c = "(p AND MSK_NEW_STATE) OR QuadStatePrevious s"
    from QuadChange_summary [OF Cons.prems, of p]
    obtain s1 es m where step: "QuadChange p s = Some (s1, es)"
      and look: "QuadLookup_at ?c = Some m"
      and pe: "pulse_emitted es \<longleftrightarrow> sint m = sint (PrevMovement s)"
      and ta: "timer_armed es \<longleftrightarrow> sint m = sint (PrevMovement s)"
      and ti: "table_indices es = [?c]"
      and pm: "PrevMovement s1 = m"
      and qp: "QuadStatePrevious s1 = drop_bit RIGHT_SHIFT_NEW_TO_PREV ?c"
      and inv: "QuadStatePrevious s1 \<le> 3"
      by blast
    from Cons.IH [OF inv]
    obtain s' ess movs where rest: "run s1 irqs = Some (s', ess)"
      and looks: "map QuadLookup_at (transition_codes (QuadStatePrevious s1) (quad_reads irqs))
                   = map Some movs"
      and pes: "map pulse_emitted (quad_events irqs ess) = spec_pulses (PrevMovement s1) movs"
      and tas: "map timer_armed (quad_events irqs ess) = spec_pulses (PrevMovement s1) movs"
      and tis: "concat (map table_indices ess)
                 = transition_codes (QuadStatePrevious s1) (quad_reads irqs)"
      and inv': "QuadStatePrevious s' \<le> 3"
      by blast
    have "run s (i # irqs) = Some (s', es # ess)"
      by (simp add: INT_QUAD step rest)
    moreover have "map QuadLookup_at
          (transition_codes (QuadStatePrevious s) (quad_reads (i # irqs)))
        = map Some (m # movs)"
      using look looks by (simp add: INT_QUAD qp)
    moreover have "map pulse_emitted (quad_events (i # irqs) (es # ess))
        = spec_pulses (PrevMovement s) (m # movs)"
      using pe pes by (simp add: INT_QUAD pm)
    moreover have "map timer_armed (quad_events (i # irqs) (es # ess))
        = spec_pulses (PrevMovement s) (m # movs)"
      using ta tas by (simp add: INT_QUAD pm)
    moreover have "concat (map table_indices (es # ess))
        = transition_codes (QuadStatePrevious s) (quad_reads (i # irqs))"
      using ti tis by (simp add: INT_QUAD qp)
    ultimately show ?thesis
      using inv' by blast
  next
    case TIMER1_OVF
    let ?s1 = "fst (TIMER1_OVF_vect s)" and ?es = "snd (TIMER1_OVF_vect s)"
    have same: "QuadStatePrevious ?s1 = QuadStatePrevious s"
        "PrevMovement ?s1 = PrevMovement s"
      and ti: "table_indices ?es = []"
      by (simp_all add: TIMER1_OVF_vect_eq)
    have inv: "QuadStatePrevious ?s1 \<le> 3"
      using Cons.prems by (simp add: same)
    from Cons.IH [OF inv]
    obtain s' ess movs where rest: "run ?s1 irqs = Some (s', ess)"
      and looks: "map QuadLookup_at (transition_codes (QuadStatePrevious s) (quad_reads irqs))
                   = map Some movs"
      and pes: "map pulse_emitted (quad_events irqs ess) = spec_pulses (PrevMovement s) movs"
      and tas: "map timer_armed (quad_events irqs ess) = spec_pulses (PrevMovement s) movs"
      and tis: "concat (map table_indices ess)
                 = transition_codes (QuadStatePrevious s) (quad_reads irqs)"
      and inv': "QuadStatePrevious s' \<le> 3"
      unfolding same by blast
    have "run s (i # irqs) = Some (s', ?es # ess)"
      using rest by (auto simp: TIMER1_OVF split: prod.split)
    moreover have "concat (map table_indices (?es # ess))
        = transition_codes (QuadStatePrevious s) (quad_reads (i # irqs))"
      using ti tis by (simp add: TIMER1_OVF)
    ultimately show ?thesis
      using looks pes tas inv' by (auto simp: TIMER1_OVF)
  qed
qed

text \<open>Every state a run reaches after initialisation has a 2-bit recorded phase pair.\<close>

lemma reachable_phase_pair:
  assumes "run (boot hw p0) irqs = Some (s, ess)"
  shows "QuadStatePrevious s \<le> 3"
proof -
  have "QuadStatePrevious (boot hw p0) \<le> 3"
    by (simp add: boot_fields phase_pair_le3)
  from run_summary [OF this, of irqs] assms show ?thesis
    by auto
qed

text \<open>The same run step by step, with the state before and after each handler.\<close>

lemma steps_summary:
  assumes "QuadStatePrevious s \<le> 3"
  shows "\<exists>xs s' movs. steps s irqs = Some xs
     \<and> run s irqs = Some (s', map step_events xs)
     \<and> map QuadLookup_at (transition_codes (QuadStatePrevious s) (quad_reads irqs))
         = map Some movs
     \<and> map pulse_fired (quad_steps xs) = spec_pulses (PrevMovement s) movs
     \<and> map hardware_untouched (quad_steps xs) = map Not (spec_pulses (PrevMovement s) movs)
     \<and> quad_events irqs (map step_events xs) = map step_events (quad_steps xs)"
  using assms
proof (induction irqs arbitrary: s)
  case Nil
  then show ?case by (simp add: quad_steps_def)
next
  case (Cons i irqs)
  show ?case
  proof (cases i)
    case (INT_QUAD p)
    let ?c = "(p AND MSK_NEW_STATE) OR QuadStatePrevious s"
    from QuadChange_effect [OF Cons.prems, of p i]
    obtain s1 es m where step: "QuadChange p s = Some (s1, es)"
      and look: "QuadLookup_at ?c = Some m"
      and pf: "pulse_fired (i, s, es, s1) = (sint m = sint (PrevMovement s))"
      and hu: "hardware_untouched (i, s, es, s1) = (sint m \<noteq> sint (PrevMovement s))"
      and pm: "PrevMovement s1 = m"
      and qp: "QuadStatePrevious s1 = drop_bit RIGHT_SHIFT_NEW_TO_PREV ?c"
      and inv: "QuadStatePrevious s1 \<le> 3"
      by blast
    from Cons.IH [OF inv]
    obtain xs s' movs where rest: "steps s1 irqs = Some xs"
      and r: "run s1 irqs = Some (s', map step_events xs)"
      and looks: "map QuadLookup_at (transition_codes (QuadStatePrevious s1) (quad_reads irqs))
                   = map Some movs"
      and pfs: "map pulse_fired (quad_steps xs) = spec_pulses (PrevMovement s1) movs"
      and hus: "map hardware_untouched (quad_steps xs)
                 = map Not (spec_pulses (PrevMovement s1) movs)"
      and qes: "quad_events irqs (map step_events xs) = map step_events (quad_steps xs)"
      by blast
    have "steps s (i # irqs) = Some ((i, s, es, s1) # xs)"
      by (simp add: INT_QUAD step rest)
    moreover have "run s (i # irqs) = Some (s', map step_events ((i, s, es, s1) # xs))"
      by (simp add: INT_QUAD step r)
    moreover have "map QuadLookup_at
          (transition_codes (QuadStatePrevious s) (quad_reads (i # irqs)))
        = map Some (m # movs)"
      using look looks by (simp add: INT_QUAD qp)
    moreover have "map pulse_fired (quad_steps ((i, s, es, s1) # xs))
        = spec_pulses (PrevMovement s) (m # movs)"
      using pf pfs unfolding quad_steps_def INT_QUAD pm by simp
    moreover have "map hardware_untouched (quad_steps ((i, s, es, s1) # xs))
        = map Not (spec_pulses (PrevMovement s) (m # movs))"
      using hu hus unfolding quad_steps_def INT_QUAD pm by simp
    moreover have "quad_events (i # irqs) (map step_events ((i, s, es, s1) # xs))
        = map step_events (quad_steps ((i, s, es, s1) # xs))"
      using qes unfolding quad_steps_def INT_QUAD by simp
    ultimately show ?thesis
      by blast
  next
    case TIMER1_OVF
    let ?s1 = "fst (TIMER1_OVF_vect s)" and ?es = "snd (TIMER1_OVF_vect s)"
    have same: "QuadStatePrevious ?s1 = QuadStatePrevious s"
        "PrevMovement ?s1 = PrevMovement s"
      by (simp_all add: TIMER1_OVF_vect_eq)
    have inv: "QuadStatePrevious ?s1 \<le> 3"
      using Cons.prems by (simp add: same)
    from Cons.IH [OF inv]
    obtain xs s' movs where rest: "steps ?s1 irqs = Some xs"
      and r: "run ?s1 irqs = Some (s', map step_events xs)"
      and looks: "map QuadLookup_at (transition_codes (QuadStatePrevious s) (quad_reads irqs))
                   = map Some movs"
      and pfs: "map pulse_fired (quad_steps xs) = spec_pulses (PrevMovement s) movs"
      and hus: "map hardware_untouched (quad_steps xs)
                 = map Not (spec_pulses (PrevMovement s) movs)"
      and qes: "quad_events irqs (map step_events xs) = map step_events (quad_steps xs)"
      unfolding same by blast
    have "steps s (i # irqs) = Some ((i, s, ?es, ?s1) # xs)"
      using rest by (auto simp: TIMER1_OVF split: prod.split)
    moreover have "run s (i # irqs) = Some (s', map step_events ((i, s, ?es, ?s1) # xs))"
      using r by (auto simp: TIMER1_OVF split: prod.split)
    moreover have "quad_steps ((i, s, ?es, ?s1) # xs) = quad_steps xs"
      by (simp add: quad_steps_def TIMER1_OVF)
    moreover have "quad_events (i # irqs) (map step_events ((i, s, ?es, ?s1) # xs))
        = quad_events irqs (map step_events xs)"
      by (simp add: TIMER1_OVF)
    ultimately show ?thesis
      using looks pfs hus qes by (auto simp: TIMER1_OVF)
  qed
qed

text \<open>Both views of a run from initialisation, with one list of movements.\<close>

lemma run_steps_pulses:
  "\<exists>s ess xs movs. run (boot hw p0) irqs = Some (s, ess)
     \<and> steps (boot hw p0) irqs = Some xs
     \<and> map step_events xs = ess
     \<and> quad_events irqs ess = map step_events (quad_steps xs)
     \<and> map QuadLookup_at (transition_codes (phase_pair p0) (quad_reads irqs)) = map Some movs
     \<and> map pulse_emitted (quad_events irqs ess) = spec_pulses 0 movs
     \<and> map timer_armed (quad_events irqs ess) = spec_pulses 0 movs
     \<and> map pulse_fired (quad_steps xs) = spec_pulses 0 movs
     \<and> map hardware_untouched (quad_steps xs) = map Not (spec_pulses 0 movs)"
proof -
  have inv: "QuadStatePrevious (boot hw p0) \<le> 3"
    by (simp add: boot_fields phase_pair_le3)
  from run_summary [OF inv, of irqs]
  obtain s ess movs where r: "run (boot hw p0) irqs = Some (s, ess)"
    and looks: "map QuadLookup_at (transition_codes (phase_pair p0) (quad_reads irqs))
                 = map Some movs"
    and pes: "map pulse_emitted (quad_events irqs ess) = spec_pulses 0 movs"
    and tas: "map timer_armed (quad_events irqs ess) = spec_pulses 0 movs"
    by (auto simp: boot_fields)
  from steps_summary [OF inv, of irqs]
  obtain xs s' movs' where st: "steps (boot hw p0) irqs = Some xs"
    and r': "run (boot hw p0) irqs = Some (s', map step_events xs)"
    and looks': "map QuadLookup_at (transition_codes (phase_pair p0) (quad_reads irqs))
                 = map Some movs'"
    and pfs: "map pulse_fired (quad_steps xs) = spec_pulses 0 movs'"
    and hus: "map hardware_untouched (quad_steps xs) = map Not (spec_pulses 0 movs')"
    and qes: "quad_events irqs (map step_events xs) = map step_events (quad_steps xs)"
    by (auto simp: boot_fields)
  from r r' have ess: "map step_events xs = ess"
    by simp
  from looks' looks have "map Some movs' = map Some movs"
    by (rule trans [OF sym])
  then have "movs' = movs"
    by (rule inj_map_eq_map [OF inj_Some, THEN iffD1])
  with r st ess looks pes tas pfs hus qes show ?thesis
    by blast
qed

section \<open>The claims\<close>

text \<open>
  C1. In every run after initialisation, whatever the port reads and however the timer
  interrupts fall between them, the pin-change invocations that toggle the pulse pin and
  arm the one-shot are exactly those whose looked-up movement equals, as a signed value,
  the movement recorded by the previous invocation (0 before the first one), zero
  movements included, and no invocation fails. This holds of the events and of the
  registers. An invocation whose movement repeats has the four hardware events of the
  arming branch, inverts the latch of the pulse pin, clears the overflow flag, loads the
  counter with the pulse length value and sets the overflow interrupt enable bit. An
  invocation whose movement does not repeat has no hardware event and leaves the pin
  latch, the flag register, the counter and the interrupt mask as they were.
\<close>

theorem QuadChange_pulse_iff_movement_repeats:
  "\<exists>s ess xs movs. run (boot hw p0) irqs = Some (s, ess)
     \<and> steps (boot hw p0) irqs = Some xs
     \<and> map step_events xs = ess
     \<and> quad_events irqs ess = map step_events (quad_steps xs)
     \<and> map QuadLookup_at (transition_codes (phase_pair p0) (quad_reads irqs)) = map Some movs
     \<and> map pulse_emitted (quad_events irqs ess) = spec_pulses 0 movs
     \<and> map timer_armed (quad_events irqs ess) = spec_pulses 0 movs
     \<and> map pulse_fired (quad_steps xs) = spec_pulses 0 movs
     \<and> map hardware_untouched (quad_steps xs) = map Not (spec_pulses 0 movs)"
  by (rule run_steps_pulses)

text \<open>
  C2. The lookup is total. The table has 16 entries and each of the 16 four-bit codes has a
  defined entry whose signed value is -1, 0 or 1; and in every run after initialisation no
  invocation reads outside the table: the run never fails, and every index the handler
  computes (they are \<open>transition_codes\<close> of the port reads) is below 16.
\<close>

theorem QuadLookup_access_in_bounds:
  assumes "unat c < NUM_POSSIBLE_QUAD_STATE_CHANGES"
  shows "length QuadLookup = NUM_POSSIBLE_QUAD_STATE_CHANGES
     \<and> (\<exists>m. QuadLookup_at c = Some m \<and> sint m \<in> {- 1, 0, 1})
     \<and> (\<exists>s ess. run (boot hw p0) irqs = Some (s, ess)
          \<and> concat (map table_indices ess)
              = transition_codes (phase_pair p0) (quad_reads irqs)
          \<and> list_all (\<lambda>i. unat i < NUM_POSSIBLE_QUAD_STATE_CHANGES)
              (concat (map table_indices ess)))"
proof -
  have len: "length QuadLookup = NUM_POSSIBLE_QUAD_STATE_CHANGES"
    by (simp add: QuadLookup_def NUM_POSSIBLE_QUAD_STATE_CHANGES_def)
  from assms have "unat c < 16"
    by (simp add: NUM_POSSIBLE_QUAD_STATE_CHANGES_def)
  from code_cases [OF this]
  have val: "\<exists>m. QuadLookup_at c = Some m \<and> sint m \<in> {- 1, 0, 1}"
    by (elim insertE emptyE) (simp_all add: QuadLookup_at_simps)
  have inv: "QuadStatePrevious (boot hw p0) \<le> 3"
    by (simp add: boot_fields phase_pair_le3)
  from run_summary [OF inv, of irqs]
  obtain s ess where r: "run (boot hw p0) irqs = Some (s, ess)"
    and ti: "concat (map table_indices ess)
              = transition_codes (phase_pair p0) (quad_reads irqs)"
    by (auto simp: boot_fields)
  have "list_all (\<lambda>i. unat i < NUM_POSSIBLE_QUAD_STATE_CHANGES)
      (transition_codes (phase_pair p0) (quad_reads irqs))"
    using transition_codes_lt16 [OF phase_pair_le3, of p0 "quad_reads irqs"]
    by (simp add: NUM_POSSIBLE_QUAD_STATE_CHANGES_def)
  with r ti len val show ?thesis
    by auto
qed

theorem QuadLookup_access_in_bounds_witness:
  "unat (7 :: uint8_t) < NUM_POSSIBLE_QUAD_STATE_CHANGES
     \<and> length QuadLookup = NUM_POSSIBLE_QUAD_STATE_CHANGES
     \<and> (\<exists>m. QuadLookup_at 7 = Some m \<and> sint m \<in> {- 1, 0, 1})
     \<and> (\<exists>s ess. run (boot power_on 0x04) [INT_QUAD 0x0C, TIMER1_OVF, INT_QUAD 0x08]
                    = Some (s, ess)
          \<and> concat (map table_indices ess) = [0x0D, 0x0B])"
proof -
  have h: "unat (7 :: uint8_t) < NUM_POSSIBLE_QUAD_STATE_CHANGES"
    by (simp add: NUM_POSSIBLE_QUAD_STATE_CHANGES_def)
  have tc: "transition_codes (phase_pair 0x04)
        (quad_reads [INT_QUAD 0x0C, TIMER1_OVF, INT_QUAD 0x08])
      = [0x0D, 0x0B]"
    by (simp add: phase_pair_def MSK_NEW_STATE_def RIGHT_SHIFT_NEW_TO_PREV_def)
  from QuadLookup_access_in_bounds [OF h, of power_on "0x04"
      "[INT_QUAD 0x0C, TIMER1_OVF, INT_QUAD 0x08]"] h
  show ?thesis
    unfolding tc by blast
qed

text \<open>
  C3, as the specification words it, fails: after initialisation with both pins low, an
  interrupt that reads pin A high (port value \<open>0x04\<close>) indexes the table with 4, while
  previous pair shifted up by two, or-ed with the current pair, is 1.
\<close>

theorem spec_TransitionCode_counterexample:
  "map_option (table_indices \<circ> snd) (QuadChange 0x04 (boot power_on 0x00))
     \<noteq> Some [spec_TransitionCode (QuadStatePrevious (boot power_on 0x00)) (phase_pair 0x04)]"
proof -
  have inv: "QuadStatePrevious (boot power_on 0x00) \<le> 3"
    by (simp add: boot_fields phase_pair_le3)
  from QuadChange_summary [OF inv, of "0x04"]
  obtain s' es where q: "QuadChange 0x04 (boot power_on 0x00) = Some (s', es)"
    and ti: "table_indices es = [4]"
    by (auto simp: boot_fields phase_pair_def MSK_NEW_STATE_def RIGHT_SHIFT_NEW_TO_PREV_def)
  have "spec_TransitionCode (QuadStatePrevious (boot power_on 0x00)) (phase_pair 0x04) = 1"
    by (simp add: spec_TransitionCode_def boot_fields phase_pair_def
        MSK_NEW_STATE_def RIGHT_SHIFT_NEW_TO_PREV_def)
  then show ?thesis
    by (simp add: q ti)
qed

text \<open>
  The table gives the same movement for a code and for the code read backwards. With
  phase A on port bit 2 and phase B on port bit 3, the handler's index is the nibble of the
  table's comment read backwards, so the movement it looks up is the one the comment gives.
\<close>

lemma QuadLookup_reverse_nibble:
  assumes "unat c < 16"
  shows "QuadLookup_at (reverse_nibble c) = QuadLookup_at c"
  using code_cases [OF assms]
  by (elim insertE emptyE) (simp_all add: QuadLookup_at_simps reverse_nibble_def)

text \<open>
  C3, amended. On every invocation of the phase-change handler (in a state whose recorded
  pair has two bits, as every reachable state has), the index into the movement table is
  the currently sampled phase pair shifted up by two, or-ed with the recorded previous
  pair: the current pair occupies the high two bits of the 4-bit code and the previous
  pair the low two.
\<close>

theorem transition_code_current_high_previous_low:
  assumes "QuadStatePrevious s \<le> 3"
  shows "map_option (table_indices \<circ> snd) (QuadChange pind s)
      = Some [push_bit 2 (phase_pair pind) OR QuadStatePrevious s]
    \<and> drop_bit 2 (push_bit 2 (phase_pair pind) OR QuadStatePrevious s) = phase_pair pind
    \<and> (push_bit 2 (phase_pair pind) OR QuadStatePrevious s) AND MSK_PREV_STATE
        = QuadStatePrevious s"
proof -
  have pp: "push_bit 2 (phase_pair pind) = pind AND MSK_NEW_STATE"
    using push_drop_and_0C [of pind]
    by (simp add: phase_pair_def MSK_NEW_STATE_def RIGHT_SHIFT_NEW_TO_PREV_def)
  have hi: "drop_bit 2 ((pind AND MSK_NEW_STATE) OR QuadStatePrevious s) = phase_pair pind"
    using drop_idx [OF assms, of pind]
    by (simp add: phase_pair_def MSK_NEW_STATE_def RIGHT_SHIFT_NEW_TO_PREV_def)
  have "take_bit 2 (QuadStatePrevious s) = QuadStatePrevious s"
    using drop_q [OF assms] by (simp add: take_bit_eq_self_iff_drop_bit_eq_0)
  then have "QuadStatePrevious s AND 3 = QuadStatePrevious s"
    by (simp add: take_bit_eq_mask mask_eq_exp_minus_1)
  then have lo: "((pind AND MSK_NEW_STATE) OR QuadStatePrevious s) AND MSK_PREV_STATE
      = QuadStatePrevious s"
    by (simp add: MSK_NEW_STATE_def MSK_PREV_STATE_def bit.conj_disj_distrib2 and.assoc)
  from QuadChange_summary [OF assms, of pind]
  obtain s' es where q: "QuadChange pind s = Some (s', es)"
    and ti: "table_indices es = [(pind AND MSK_NEW_STATE) OR QuadStatePrevious s]"
    by auto
  show ?thesis
    unfolding pp using hi lo q ti by simp
qed

theorem transition_code_current_high_previous_low_witness:
  "QuadStatePrevious (boot power_on 0x00) \<le> 3
   \<and> map_option (table_indices \<circ> snd) (QuadChange 0x04 (boot power_on 0x00)) = Some [4]"
proof -
  have inv: "QuadStatePrevious (boot power_on 0x00) \<le> 3"
    by (simp add: boot_fields phase_pair_le3)
  have "push_bit 2 (phase_pair 0x04) OR QuadStatePrevious (boot power_on 0x00) = 4"
    by (simp add: boot_fields phase_pair_def MSK_NEW_STATE_def RIGHT_SHIFT_NEW_TO_PREV_def)
  with transition_code_current_high_previous_low [OF inv, of "0x04"] inv show ?thesis
    by simp
qed

text \<open>
  C4, as the specification orders it, fails: the first interrupt after initialisation with
  both pins low and unchanged emits a pulse, and its hardware events are not flag cleared,
  counter loaded, pin toggled, interrupt enabled.
\<close>

theorem spec_arming_order_counterexample:
  "map_option (pulse_emitted \<circ> snd) (QuadChange 0x00 (boot power_on 0x00)) = Some True
   \<and> map_option (hw_events \<circ> snd) (QuadChange 0x00 (boot power_on 0x00))
       \<noteq> Some (spec_arming_order (boot power_on 0x00))"
proof -
  have inv: "QuadStatePrevious (boot power_on 0x00) \<le> 3"
    by (simp add: boot_fields phase_pair_le3)
  show ?thesis
    by (simp add: QuadChange_step [OF inv] Let_def boot_fields phase_pair_def
        MSK_NEW_STATE_def RIGHT_SHIFT_NEW_TO_PREV_def QuadLookup_def arm_events_def
        hw_events_def spec_arming_order_def pulse_emitted_def)
qed

text \<open>
  C4, amended. When a validated edge arms the pulse shaper (the looked-up movement equals
  the recorded one), its side effects occur in this order: first the output pin is
  toggled, then the pending timer-expiry flag is cleared, then the countdown register is
  loaded, and finally the timer's expiry interrupt is enabled. Afterwards the pin is
  inverted, the overflow flag is clear, the counter holds the pulse length value and the
  overflow interrupt is enabled.
\<close>

theorem arming_toggle_first:
  assumes "QuadLookup_at ((pind AND MSK_NEW_STATE) OR QuadStatePrevious s) = Some m"
    and "sint m = sint (PrevMovement s)"
  shows "\<exists>s' es. QuadChange pind s = Some (s', es)
     \<and> hw_events es =
         [PinToggle PULSE_OUT, WriteTIFR1 (TIFR1 s OR BV TOV1),
          WriteTCNT1 PULSE_LEN_TIMER_VAL, WriteTIMSK1 (TIMSK1 s OR BV TOIE1)]
     \<and> PORTD s' = PORTD s XOR BV PULSE_OUT
     \<and> \<not> bit (TIFR1 s') TOV1
     \<and> TCNT1 s' = PULSE_LEN_TIMER_VAL
     \<and> bit (TIMSK1 s') TOIE1"
  using assms
  by (simp add: QuadChange_def Let_def stmt_defs hw_events_def TOV1_def TOIE1_def BV_def
      bit_or_iff bit_and_iff bit_not_iff)

theorem arming_toggle_first_witness:
  "QuadLookup_at ((0x00 AND MSK_NEW_STATE) OR QuadStatePrevious (boot power_on 0x00)) = Some 0
   \<and> sint (0 :: int8_t) = sint (PrevMovement (boot power_on 0x00))
   \<and> (\<exists>s' es. QuadChange 0x00 (boot power_on 0x00) = Some (s', es)
        \<and> hw_events es =
            [PinToggle PULSE_OUT, WriteTIFR1 1, WriteTCNT1 PULSE_LEN_TIMER_VAL, WriteTIMSK1 1])"
proof -
  have a: "QuadLookup_at ((0x00 AND MSK_NEW_STATE) OR QuadStatePrevious (boot power_on 0x00))
      = Some 0"
    by (simp add: boot_fields phase_pair_def MSK_NEW_STATE_def RIGHT_SHIFT_NEW_TO_PREV_def
        QuadLookup_at_simps)
  have b: "sint (0 :: int8_t) = sint (PrevMovement (boot power_on 0x00))"
    by (simp add: boot_fields)
  have c: "TIFR1 (boot power_on 0x00) OR BV TOV1 = 1"
    "TIMSK1 (boot power_on 0x00) OR BV TOIE1 = 1"
    by (simp_all add: boot_def sketch_setup_def static_init_def power_on_def Let_def BV_def
        TOV1_def TOIE1_def)
  from arming_toggle_first [OF a b] a b show ?thesis
    unfolding c by blast
qed

text \<open>
  C5. The value loaded on arming is \<open>0xFFFF - 800 = 64735\<close>, with the timer clocked at
  the CPU clock (prescaler 1). A counter loaded with it overflows after 801 ticks, one
  more than the 800 CPU clocks of the pulse length: the equation of the claim,
  \<open>(MAX_COUNT + 1 - loaded) * tick = pulse width\<close>, does not hold of the code, which is a
  tick long.
\<close>

theorem PULSE_LEN_TIMER_VAL_one_tick_long:
  "map_option (TCNT1 \<circ> fst) (QuadChange 0x00 (boot power_on 0x00)) = Some PULSE_LEN_TIMER_VAL
   \<and> TCCR1B (boot power_on 0x00) = BV CS10
   \<and> unat PULSE_LEN_TIMER_VAL = 64735
   \<and> unat PULSE_LEN_CPU_CLOCKS = 800
   \<and> ticks_to_overflow PULSE_LEN_TIMER_VAL = 801"
proof -
  have inv: "QuadStatePrevious (boot power_on 0x00) \<le> 3"
    by (simp add: boot_fields phase_pair_le3)
  have "map_option (TCNT1 \<circ> fst) (QuadChange 0x00 (boot power_on 0x00))
      = Some PULSE_LEN_TIMER_VAL"
    by (simp add: QuadChange_step [OF inv] Let_def boot_fields phase_pair_def
        MSK_NEW_STATE_def RIGHT_SHIFT_NEW_TO_PREV_def QuadLookup_def arm_state_def)
  moreover have "unat PULSE_LEN_TIMER_VAL = 64735" "unat PULSE_LEN_CPU_CLOCKS = 800"
    by (simp_all add: PULSE_LEN_TIMER_VAL_def PULSE_LEN_CPU_CLOCKS_def PULSE_LEN_US_def
        CPU_CLOCK_PER_US_def)
  ultimately show ?thesis
    by (simp add: ticks_to_overflow_def MAX_COUNT_def boot_fields)
qed

text \<open>
  C6. The table follows the quadrature law. Code \<open>0b0010\<close> maps to +1 and \<open>0b0001\<close> to
  -1. The table is invariant under the rotation that moves both phase pairs of a code one
  step along the cycle \<open>00, 10, 11, 01\<close> (which keeps the codes in range and keeps
  single-bit changes single-bit changes). A code in which exactly one bit changes maps to
  +1 or -1, every other code (no bit or both bits changing) maps to 0; the +1 codes are
  the four rotations of \<open>0b0010\<close>, the -1 codes the four rotations of \<open>0b0001\<close>.
\<close>

theorem QuadLookup_quadrature_law:
  assumes "unat c < NUM_POSSIBLE_QUAD_STATE_CHANGES"
  shows "QuadLookup_at 2 = Some 1 \<and> QuadLookup_at 1 = Some (- 1)
     \<and> unat (rotate_code c) < NUM_POSSIBLE_QUAD_STATE_CHANGES
     \<and> single_bit_change (rotate_code c) = single_bit_change c
     \<and> QuadLookup_at (rotate_code c) = QuadLookup_at c
     \<and> (if single_bit_change c
         then QuadLookup_at c = Some 1 \<or> QuadLookup_at c = Some (- 1)
         else QuadLookup_at c = Some 0)
     \<and> (QuadLookup_at c = Some 1 \<longleftrightarrow> c \<in> {2, 11, 13, 4})
     \<and> (QuadLookup_at c = Some (- 1) \<longleftrightarrow> c \<in> {1, 8, 14, 7})
     \<and> map rotate_code [2, 11, 13, 4] = [11, 13, 4, 2]
     \<and> map rotate_code [1, 8, 14, 7] = [8, 14, 7, 1]"
proof -
  from assms have "unat c < 16"
    by (simp add: NUM_POSSIBLE_QUAD_STATE_CHANGES_def)
  from code_cases [OF this] show ?thesis
    by (elim insertE emptyE)
      (simp_all add: QuadLookup_at_simps rotate_code_def gray_next_def single_bit_change_def
        MSK_PREV_STATE_def NUM_POSSIBLE_QUAD_STATE_CHANGES_def)
qed

theorem QuadLookup_quadrature_law_witness:
  "unat (11 :: uint8_t) < NUM_POSSIBLE_QUAD_STATE_CHANGES
   \<and> rotate_code 11 = 13 \<and> single_bit_change 11
   \<and> QuadLookup_at 13 = Some 1 \<and> QuadLookup_at 11 = Some 1"
proof -
  have h: "unat (11 :: uint8_t) < NUM_POSSIBLE_QUAD_STATE_CHANGES"
    by (simp add: NUM_POSSIBLE_QUAD_STATE_CHANGES_def)
  have r: "rotate_code 11 = 13" "single_bit_change 11"
    by (simp_all add: rotate_code_def gray_next_def single_bit_change_def MSK_PREV_STATE_def)
  from QuadLookup_quadrature_law [OF h] h r show ?thesis
    by simp
qed

text \<open>
  C7. Every invocation of the phase-change handler, emitting or not, ends with the store
  of the looked-up movement into \<open>PrevMovement\<close> followed by the store of the phase pair
  sampled in this invocation into \<open>QuadStatePrevious\<close>: these are its last two events,
  neither static is stored to before them, and the pin toggle and every other hardware
  event of the emission decision lie before them.
\<close>

theorem QuadChange_final_updates:
  assumes "QuadStatePrevious s \<le> 3"
  shows "\<exists>s' pre m. QuadChange pind s
        = Some (s', pre @ [Store VPrevMovement m, Store VQuadStatePrevious (phase_pair pind)])
     \<and> QuadLookup_at ((pind AND MSK_NEW_STATE) OR QuadStatePrevious s) = Some m
     \<and> NewMovement s' = m
     \<and> PrevMovement s' = m
     \<and> QuadStatePrevious s' = phase_pair pind
     \<and> stores_to VPrevMovement pre = []
     \<and> stores_to VQuadStatePrevious pre = []
     \<and> pulse_emitted pre = (sint m = sint (PrevMovement s))
     \<and> hw_events (pre @ [Store VPrevMovement m, Store VQuadStatePrevious (phase_pair pind)])
         = hw_events pre"
proof -
  let ?c = "(pind AND MSK_NEW_STATE) OR QuadStatePrevious s"
  let ?m = "QuadLookup ! unat ?c"
  let ?pre = "[Store VQuadState ?c, Store VNewMovement ?m]
      @ (if ?m = PrevMovement s then arm_events s else [])"
  have lt: "unat ?c < 16"
    using idx_lt16 [OF assms, of pind] by (simp add: MSK_NEW_STATE_def)
  have hi: "drop_bit 2 ?c = phase_pair pind"
    using drop_idx [OF assms, of pind]
    by (simp add: phase_pair_def MSK_NEW_STATE_def RIGHT_SHIFT_NEW_TO_PREV_def)
  have q: "QuadChange pind s
      = Some ((if ?m = PrevMovement s
               then arm_state (s\<lparr>QuadState := ?c, NewMovement := ?m\<rparr>)
               else s\<lparr>QuadState := ?c, NewMovement := ?m\<rparr>)
              \<lparr>PrevMovement := ?m, QuadStatePrevious := phase_pair pind\<rparr>,
           ?pre @ [Store VPrevMovement ?m, Store VQuadStatePrevious (phase_pair pind)])"
    unfolding QuadChange_step [OF assms] Let_def hi by simp
  have "stores_to VPrevMovement ?pre = []" "stores_to VQuadStatePrevious ?pre = []"
    "pulse_emitted ?pre = (sint ?m = sint (PrevMovement s))"
    by (simp_all add: arm_events_def pulse_emitted_def sint_eq)
  moreover have "NewMovement ((if ?m = PrevMovement s
        then arm_state (s\<lparr>QuadState := ?c, NewMovement := ?m\<rparr>)
        else s\<lparr>QuadState := ?c, NewMovement := ?m\<rparr>)
       \<lparr>PrevMovement := ?m, QuadStatePrevious := phase_pair pind\<rparr>) = ?m"
    by (simp add: arm_state_def)
  moreover have "hw_events
        (?pre @ [Store VPrevMovement ?m, Store VQuadStatePrevious (phase_pair pind)])
      = hw_events ?pre"
    by (simp add: hw_events_def)
  ultimately show ?thesis
    using q QuadLookup_at_Some [OF lt] by (intro exI conjI) (assumption | simp)+
qed

theorem QuadChange_final_updates_witness:
  "QuadStatePrevious (boot power_on 0x00) \<le> 3
   \<and> (\<exists>s' pre. QuadChange 0x04 (boot power_on 0x00)
          = Some (s', pre @ [Store VPrevMovement 1, Store VQuadStatePrevious 1])
        \<and> PrevMovement s' = 1 \<and> QuadStatePrevious s' = 1
        \<and> stores_to VPrevMovement pre = [] \<and> stores_to VQuadStatePrevious pre = []
        \<and> \<not> pulse_emitted pre)"
proof -
  have inv: "QuadStatePrevious (boot power_on 0x00) \<le> 3"
    by (simp add: boot_fields phase_pair_le3)
  have pp: "phase_pair 0x04 = 1"
    "QuadLookup_at ((0x04 AND MSK_NEW_STATE) OR QuadStatePrevious (boot power_on 0x00)) = Some 1"
    "PrevMovement (boot power_on 0x00) = 0"
    by (simp_all add: boot_fields phase_pair_def MSK_NEW_STATE_def RIGHT_SHIFT_NEW_TO_PREV_def
        QuadLookup_at_simps)
  from QuadChange_final_updates [OF inv, of "0x04"] inv show ?thesis
    unfolding pp by auto
qed

text \<open>
  C8. The timer-expiry handler has one path. From every state it toggles the output pin
  and then writes the interrupt mask with the overflow interrupt disabled; it reads no
  other state and cannot fail. (Both sketches of the repository have the same handler.)
\<close>

theorem TIMER1_OVF_vect_unconditional:
  "\<exists>s' v. TIMER1_OVF_vect s = (s', [PinToggle PULSE_OUT, WriteTIMSK1 v])
     \<and> handle TIMER1_OVF s = Some (s', [PinToggle PULSE_OUT, WriteTIMSK1 v])
     \<and> PORTD s' = PORTD s XOR BV PULSE_OUT
     \<and> bit (PORTD s') PULSE_OUT = (\<not> bit (PORTD s) PULSE_OUT)
     \<and> TIMSK1 s' = v
     \<and> v = TIMSK1 s AND NOT (BV TOIE1)
     \<and> \<not> bit (TIMSK1 s') TOIE1"
  by (simp add: TIMER1_OVF_vect_eq BV_def TOIE1_def PULSE_OUT_def bit_xor_iff bit_and_iff
      bit_not_iff bit_push_bit_iff)

text \<open>
  C9. If the table movements of the four transitions of a run from initialisation are
  +1, -1, +1, +1, then exactly one pulse is emitted, by the fourth transition: its handler
  inverts the latch of the pulse pin and arms the timer. The first three emit none: their
  handlers have no hardware event and leave the pin latch and the timer registers as they
  were.
\<close>

theorem glitch_sequence_one_pulse:
  assumes "map QuadLookup_at (transition_codes (phase_pair p0) (quad_reads irqs))
            = map Some [1, - 1, 1, 1]"
  shows "\<exists>s ess xs. run (boot hw p0) irqs = Some (s, ess)
     \<and> steps (boot hw p0) irqs = Some xs
     \<and> map step_events xs = ess
     \<and> map pulse_emitted (quad_events irqs ess) = [False, False, False, True]
     \<and> map pulse_fired (quad_steps xs) = [False, False, False, True]
     \<and> map hardware_untouched (quad_steps xs) = [True, True, True, False]"
proof -
  from run_steps_pulses [of hw p0 irqs]
  obtain s ess xs movs where r: "run (boot hw p0) irqs = Some (s, ess)"
    and st: "steps (boot hw p0) irqs = Some xs"
    and ess: "map step_events xs = ess"
    and looks: "map QuadLookup_at (transition_codes (phase_pair p0) (quad_reads irqs))
                 = map Some movs"
    and pes: "map pulse_emitted (quad_events irqs ess) = spec_pulses 0 movs"
    and pfs: "map pulse_fired (quad_steps xs) = spec_pulses 0 movs"
    and hus: "map hardware_untouched (quad_steps xs) = map Not (spec_pulses 0 movs)"
    by blast
  from looks assms have "map Some movs = map Some [1, - 1, 1, 1 :: int8_t]"
    by (rule trans [OF sym])
  then have "movs = [1, - 1, 1, 1]"
    by (rule inj_map_eq_map [OF inj_Some, THEN iffD1])
  with r st ess pes pfs hus show ?thesis
    by simp
qed

theorem glitch_sequence_one_pulse_witness:
  "map QuadLookup_at
      (transition_codes (phase_pair 0x00)
        (quad_reads [INT_QUAD 0x04, INT_QUAD 0x00, INT_QUAD 0x04, INT_QUAD 0x0C]))
     = map Some [1, - 1, 1, 1]
   \<and> (\<exists>s ess xs. run (boot power_on 0x00)
          [INT_QUAD 0x04, INT_QUAD 0x00, INT_QUAD 0x04, INT_QUAD 0x0C] = Some (s, ess)
        \<and> steps (boot power_on 0x00)
          [INT_QUAD 0x04, INT_QUAD 0x00, INT_QUAD 0x04, INT_QUAD 0x0C] = Some xs
        \<and> map step_events xs = ess
        \<and> map pulse_emitted
            (quad_events [INT_QUAD 0x04, INT_QUAD 0x00, INT_QUAD 0x04, INT_QUAD 0x0C] ess)
          = [False, False, False, True]
        \<and> map pulse_fired (quad_steps xs) = [False, False, False, True]
        \<and> map hardware_untouched (quad_steps xs) = [True, True, True, False])"
proof -
  have h: "map QuadLookup_at
      (transition_codes (phase_pair 0x00)
        (quad_reads [INT_QUAD 0x04, INT_QUAD 0x00, INT_QUAD 0x04, INT_QUAD 0x0C]))
     = map Some [1, - 1, 1, 1]"
    by (simp add: phase_pair_def MSK_NEW_STATE_def RIGHT_SHIFT_NEW_TO_PREV_def
        QuadLookup_at_simps)
  from glitch_sequence_one_pulse [OF h, of power_on] h show ?thesis
    by blast
qed

text \<open>
  C10. \<open>PrevMovement\<close> is 0 after the static initialisers and the initialisation function
  does not write it, so the first phase-change interrupt after initialisation emits a
  pulse if and only if the movement it looks up is 0; it never emits one when that
  movement is +1 or -1. When the movement is 0 the handler inverts the latch of the pulse
  pin, loads the counter and enables the overflow interrupt; otherwise it has no hardware
  event and the pin latch, the counter and the interrupt mask are those of power-on.
\<close>

theorem first_transition_pulse_iff_zero:
  "\<exists>s es m. QuadChange p1 (boot hw p0) = Some (s, es)
     \<and> QuadLookup_at ((p1 AND MSK_NEW_STATE) OR phase_pair p0) = Some m
     \<and> PrevMovement (static_init hw) = 0
     \<and> PrevMovement (sketch_setup p0 (static_init hw)) = PrevMovement (static_init hw)
     \<and> (pulse_emitted es \<longleftrightarrow> sint m = 0)
     \<and> \<not> (pulse_emitted es \<and> (sint m = 1 \<or> sint m = - 1))
     \<and> pulse_fired (INT_QUAD p1, boot hw p0, es, s) = (sint m = 0)
     \<and> hardware_untouched (INT_QUAD p1, boot hw p0, es, s) = (sint m \<noteq> 0)
     \<and> (if sint m = 0
         then hw_events es = arm_events hw
            \<and> PORTD s = PORTD hw XOR BV PULSE_OUT
            \<and> TCNT1 s = PULSE_LEN_TIMER_VAL
            \<and> bit (TIMSK1 s) TOIE1
         else hw_events es = []
            \<and> PORTD s = PORTD hw
            \<and> TCNT1 s = TCNT1 hw
            \<and> TIMSK1 s = TIMSK1 hw)"
proof -
  have inv: "QuadStatePrevious (boot hw p0) \<le> 3"
    by (simp add: boot_fields phase_pair_le3)
  from QuadChange_summary [OF inv, of p1]
  obtain s es m where q: "QuadChange p1 (boot hw p0) = Some (s, es)"
    and look: "QuadLookup_at ((p1 AND MSK_NEW_STATE) OR phase_pair p0) = Some m"
    and pe: "pulse_emitted es \<longleftrightarrow> sint m = 0"
    by (auto simp: boot_fields)
  from QuadChange_effect [OF inv, of p1 "INT_QUAD p1"] q look
  have pf: "pulse_fired (INT_QUAD p1, boot hw p0, es, s) = (sint m = 0)"
    and hu: "hardware_untouched (INT_QUAD p1, boot hw p0, es, s) = (sint m \<noteq> 0)"
    by (auto simp: boot_fields)
  have ae: "arm_events (boot hw p0) = arm_events hw"
    by (simp add: arm_events_def boot_registers)
  have regs: "if sint m = 0
         then hw_events es = arm_events hw
            \<and> PORTD s = PORTD hw XOR BV PULSE_OUT
            \<and> TCNT1 s = PULSE_LEN_TIMER_VAL
            \<and> bit (TIMSK1 s) TOIE1
         else hw_events es = []
            \<and> PORTD s = PORTD hw
            \<and> TCNT1 s = TCNT1 hw
            \<and> TIMSK1 s = TIMSK1 hw"
    using pf hu by (cases "sint m = 0") (auto simp: boot_registers ae)
  have "PrevMovement (static_init hw) = 0"
    by (simp add: static_init_def)
  moreover have "PrevMovement (sketch_setup p0 (static_init hw)) = PrevMovement (static_init hw)"
    by (simp add: sketch_setup_def Let_def)
  ultimately show ?thesis
    using q look pe pf hu regs by (intro exI conjI) (assumption | simp)+
qed

end
